theory Spec2Isabelle
  imports Complex_Main "HOL-Library.Sublist" "HOL-Library.Multiset"
begin

section \<open>Number Duel: the round engine, scoring and the highscore store\<close>

text \<open>
  A shallow embedding of \<^verbatim>\<open>number_duel.py\<close>. Python integers are \<open>int\<close>, strings are
  \<open>string\<close>, the dictionaries with a fixed set of keys that the program builds itself are
  records, and the exceptions the code can raise on the modelled inputs are values of
  \<open>py_error\<close>. What the program reads from its environment is passed in: the secret drawn
  by \<^verbatim>\<open>random.randint\<close>, the readings of the clock, the integers returned by
  \<^verbatim>\<open>get_int\<close>, the timestamp, and the state of \<^verbatim>\<open>highscores.json\<close>.
\<close>

subsection \<open>Exceptions\<close>

text \<open>
  \<^verbatim>\<open>OSError\<close> and \<^verbatim>\<open>ValueError\<close> stand for what opening and parsing the
  highscore file can raise (\<^verbatim>\<open>JSONDecodeError\<close> and \<^verbatim>\<open>UnicodeDecodeError\<close>
  are subclasses of \<^verbatim>\<open>ValueError\<close>). All five are subclasses of
  \<^verbatim>\<open>Exception\<close>.
\<close>

datatype py_error = KeyError | AttributeError | TypeError | OSError | ValueError

subsection \<open>Configuration\<close>

record cfg =
  cfg_min :: int
  cfg_max :: int
  cfg_attempts :: "int option"
  cfg_time_limit :: "int option"

definition DIFFICULTIES :: "(string \<times> cfg) list" where
  "DIFFICULTIES =
     [(''easy'',
         \<lparr>cfg_min = 1, cfg_max = 50, cfg_attempts = Some 10, cfg_time_limit = None\<rparr>),
      (''medium'',
         \<lparr>cfg_min = 1, cfg_max = 200, cfg_attempts = Some 8, cfg_time_limit = None\<rparr>),
      (''hard'',
         \<lparr>cfg_min = 1, cfg_max = 1000, cfg_attempts = Some 10, cfg_time_limit = None\<rparr>),
      (''timed'',
         \<lparr>cfg_min = 1, cfg_max = 500, cfg_attempts = None, cfg_time_limit = Some 20\<rparr>)]"

text \<open>Python truthiness of an optional integer: \<^verbatim>\<open>None\<close> and \<^verbatim>\<open>0\<close> are false.\<close>

definition truthy :: "int option \<Rightarrow> bool" where
  "truthy v = (case v of None \<Rightarrow> False | Some n \<Rightarrow> n \<noteq> 0)"

subsection \<open>Utilities: highscores\<close>

text \<open>
  What \<^verbatim>\<open>json.load\<close> can return. JSON numbers with a fraction or an exponent
  (Python floats) are left out of the model. \<open>JDict\<close> lists the items of the parsed
  dictionary; \<open>map_of\<close> looks a key up.
\<close>

datatype json =
    JNull
  | JBool bool
  | JInt int
  | JStr string
  | JList "json list"
  | JDict "(string \<times> json) list"

text \<open>
  The state of \<^verbatim>\<open>HIGHSCORE_FILE\<close>: it does not exist, or opening and parsing it
  raises, or it parses to a document.
\<close>

datatype storage = Missing | Unreadable py_error | Holds json

text \<open>The block \<^verbatim>\<open>with open(...) as f: return json.load(f)\<close>.\<close>

definition read_json :: "storage \<Rightarrow> py_error + json" where
  "read_json st =
     (case st of
        Missing \<Rightarrow> Inl OSError
      | Unreadable err \<Rightarrow> Inl err
      | Holds doc \<Rightarrow> Inr doc)"

text \<open>
  \<^verbatim>\<open>load_highscores\<close>: the empty list when the file does not exist; otherwise what
  parsing returns, and the empty list when it raises (\<^verbatim>\<open>except Exception\<close> catches
  every \<open>py_error\<close>).
\<close>

definition load_highscores :: "storage \<Rightarrow> py_error + json" where
  "load_highscores st =
     (if st = Missing then Inr (JList [])
      else (case read_json st of
              Inr doc \<Rightarrow> Inr doc
            | Inl err \<Rightarrow> Inr (JList [])))"

text \<open>
  \<^verbatim>\<open>save_highscores\<close> rewrites the whole file; reading it back gives the entries
  written. A failing write is not modelled.
\<close>

definition save_highscores :: "json list \<Rightarrow> storage" where
  "save_highscores entries = Holds (JList entries)"

text \<open>
  \<^verbatim>\<open>e["score"]\<close>: a dictionary without the key raises \<^verbatim>\<open>KeyError\<close>, any other
  value cannot be subscripted with a string and raises \<^verbatim>\<open>TypeError\<close>.
\<close>

fun subscript :: "json \<Rightarrow> string \<Rightarrow> py_error + json" where
  "subscript (JDict items) k =
     (case map_of items k of None \<Rightarrow> Inl KeyError | Some v \<Rightarrow> Inr v)"
| "subscript j k = Inl TypeError"

text \<open>The values that compare with an \<^verbatim>\<open>int\<close>: integers and booleans.\<close>

fun as_number :: "json \<Rightarrow> int option" where
  "as_number (JInt i) = Some i"
| "as_number (JBool b) = Some (if b then 1 else 0)"
| "as_number j = None"

text \<open>
  \<^verbatim>\<open>sorted(entries, key=lambda e: e["score"], reverse=True)\<close>. The keys of all the
  elements are computed first, in list order, and the first failure is raised. The list
  is then reversed, sorted stably in ascending key order and reversed again. The list
  sorted by \<^verbatim>\<open>add_highscore\<close> always holds the new entry, whose key is an
  \<^verbatim>\<open>int\<close>, so a key that is not a number is compared with a number at some point and
  raises \<^verbatim>\<open>TypeError\<close>.
\<close>

fun sort_keys :: "json list \<Rightarrow> py_error + json list" where
  "sort_keys [] = Inr []"
| "sort_keys (e # es) =
     (case subscript e ''score'' of
        Inl err \<Rightarrow> Inl err
      | Inr k \<Rightarrow> (case sort_keys es of Inl err \<Rightarrow> Inl err | Inr ks \<Rightarrow> Inr (k # ks)))"

definition score_number :: "json \<Rightarrow> int" where
  "score_number e =
     (case subscript e ''score'' of
        Inr k \<Rightarrow> (case as_number k of Some n \<Rightarrow> n | None \<Rightarrow> 0)
      | Inl err \<Rightarrow> 0)"

definition sorted_reverse :: "('a \<Rightarrow> int) \<Rightarrow> 'a list \<Rightarrow> 'a list" where
  "sorted_reverse key xs = rev (sort_key key (rev xs))"

definition sorted_by_score :: "json list \<Rightarrow> py_error + json list" where
  "sorted_by_score entries =
     (case sort_keys entries of
        Inl err \<Rightarrow> Inl err
      | Inr keys \<Rightarrow>
          if list_all (\<lambda>k. as_number k \<noteq> None) keys
          then Inr (sorted_reverse score_number entries)
          else Inl TypeError)"

text \<open>
  The dictionary appended by \<^verbatim>\<open>add_highscore\<close>; \<open>now\<close> is
  \<^verbatim>\<open>datetime.utcnow().isoformat()\<close>.
\<close>

definition new_entry :: "string \<Rightarrow> int \<Rightarrow> string \<Rightarrow> string \<Rightarrow> json" where
  "new_entry name score difficulty now =
     JDict [(''name'', JStr name), (''score'', JInt score),
            (''difficulty'', JStr difficulty), (''date'', JStr (now @ ''Z''))]"

text \<open>
  \<^verbatim>\<open>add_highscore\<close>. Only a list has \<^verbatim>\<open>append\<close>: any other loaded document
  raises \<^verbatim>\<open>AttributeError\<close>.
\<close>

definition add_highscore ::
  "string \<Rightarrow> int \<Rightarrow> string \<Rightarrow> string \<Rightarrow> storage \<Rightarrow> py_error + storage" where
  "add_highscore name score difficulty now st =
     (case load_highscores st of
        Inl err \<Rightarrow> Inl err
      | Inr (JList entries) \<Rightarrow>
          (case sorted_by_score (entries @ [new_entry name score difficulty now]) of
             Inl err \<Rightarrow> Inl err
           | Inr ranked \<Rightarrow> Inr (save_highscores (take 50 ranked)))
      | Inr other \<Rightarrow> Inl AttributeError)"

subsection \<open>Game core: hints\<close>

text \<open>\<^verbatim>\<open>str\<close> of an integer: its decimal digits, after a minus sign when negative.\<close>

fun str_nat :: "nat \<Rightarrow> string" where
  "str_nat n =
     (if n < 10 then [''0123456789'' ! n]
      else str_nat (n div 10) @ [''0123456789'' ! (n mod 10)])"

declare str_nat.simps [simp del]

definition str :: "int \<Rightarrow> string" where
  "str i = (if i < 0 then CHR ''-'' # str_nat (nat (- i)) else str_nat (nat i))"

text \<open>
  \<^verbatim>\<open>give_hint\<close>. The product \<^verbatim>\<open>secret * 0.02\<close> is a float in Python; it is
  modelled by the exact rational \<open>secret * (2 / 100)\<close>, and the rounding of the float
  product is not modelled. The comparison of the integer \<open>diff\<close> with it is exact in
  Python as it is here. The parameters \<open>attempt\<close> and \<open>max_attempts\<close> are unused, as in
  the source.
\<close>

definition give_hint :: "int \<Rightarrow> int \<Rightarrow> int \<Rightarrow> int \<Rightarrow> string" where
  "give_hint secret guess attempt max_attempts =
     (let diff = \<bar>secret - guess\<bar> in
      if diff = 0 then ''Correct!''
      else
        let basic =
              (if rat_of_int diff
                    \<le> max 1 (if secret \<noteq> 0 then rat_of_int secret * (2 / 100) else 2)
               then ''You're extremely close!''
               else if diff \<le> 3 then ''Very close.''
               else if diff \<le> 10 then ''Close.''
               else ''Not that close.'');
            hl = (if guess < secret then ''higher'' else ''lower'');
            digit_hint =
              (if secret < 10000 \<and> guess < 10000 then
                 let secret_s = str secret;
                     guess_s = str guess;
                     matches = length (filter (\<lambda>(a, b). a = b)
                                         (zip (rev secret_s) (rev guess_s)))
                 in if matches \<noteq> 0
                    then '' (Digits from right matched: '' @ str (int matches) @ '')''
                    else ''''
               else '''')
        in basic @ '' Try '' @ hl @ ''.'' @ digit_hint)"

subsection \<open>Game core: the round\<close>

text \<open>
  \<^verbatim>\<open>play_round\<close> returns the dictionary
  \<^verbatim>\<open>{"win": ..., "attempts": len(guesses), "secret": secret}\<close>; these three
  keys are all it has.
\<close>

record round_result =
  res_win :: bool
  res_attempts :: int
  res_secret :: int

text \<open>
  What a round prints, one event for each \<^verbatim>\<open>print\<close>; \<open>AskGuess\<close> is the call of
  \<^verbatim>\<open>get_int\<close>.
\<close>

datatype event =
    Picked int int string
  | YouHaveAttempts int
  | YouHaveSeconds int
  | TimesUp
  | Timer int
  | NoAttemptsLeft
  | AskGuess
  | CorrectMsg
  | Hint string
  | AttemptsLeft int
  | Tip string int int

text \<open>
  A run of the round: what was printed, the local list \<^verbatim>\<open>guesses\<close> when the loop
  was left, and the dictionary returned. The result is \<open>None\<close> when the guesses supplied
  run out while the loop is still asking: the round has not ended.
\<close>

record run =
  run_output :: "event list"
  run_guesses :: "int list"
  run_result :: "round_result option"

text \<open>
  The \<^verbatim>\<open>while True\<close> loop of \<^verbatim>\<open>play_round\<close>. \<open>clock i\<close> is the value of
  \<^verbatim>\<open>time.time() - start_time\<close> read at the top of the iteration entered with \<open>i\<close>
  guesses recorded; \<open>pending\<close> are the integers \<^verbatim>\<open>get_int\<close> will return, in order.
\<close>

fun guess_loop ::
  "cfg \<Rightarrow> int \<Rightarrow> (nat \<Rightarrow> rat) \<Rightarrow> int option \<Rightarrow> int list \<Rightarrow> int list \<Rightarrow> run" where
  "guess_loop c secret clock attempts_left guesses pending =
     (let time_limit = cfg_time_limit c;
          elapsed = clock (length guesses);
          limit = (case time_limit of Some t \<Rightarrow> rat_of_int t | None \<Rightarrow> 0);
          remain = max 0 (limit - elapsed)
      in
      if truthy time_limit \<and> elapsed > limit then
        \<lparr>run_output = [TimesUp], run_guesses = guesses,
         run_result = Some \<lparr>res_win = False, res_attempts = int (length guesses),
                            res_secret = secret\<rparr>\<rparr>
      else
        let timer = (if truthy time_limit then [Timer \<lfloor>remain\<rfloor>] else []) in
        if (case attempts_left of Some a \<Rightarrow> a \<le> 0 | None \<Rightarrow> False) then
          \<lparr>run_output = timer @ [NoAttemptsLeft], run_guesses = guesses,
           run_result = Some \<lparr>res_win = False, res_attempts = int (length guesses),
                              res_secret = secret\<rparr>\<rparr>
        else
          (case pending of
             [] \<Rightarrow>
               \<lparr>run_output = timer @ [AskGuess], run_guesses = guesses, run_result = None\<rparr>
           | guess # rest \<Rightarrow>
               let guesses' = guesses @ [guess] in
               if guess = secret then
                 \<lparr>run_output = timer @ [AskGuess, CorrectMsg], run_guesses = guesses',
                  run_result = Some \<lparr>res_win = True, res_attempts = int (length guesses'),
                                     res_secret = secret\<rparr>\<rparr>
               else
                 let mh = give_hint secret guess (int (length guesses'))
                            (case cfg_attempts c of
                               Some a \<Rightarrow> if a \<noteq> 0 then a else 999
                             | None \<Rightarrow> 999);
                     attempts_left' = map_option (\<lambda>a. a - 1) attempts_left;
                     left_msg = (case attempts_left' of
                                   Some a \<Rightarrow> [AttemptsLeft a]
                                 | None \<Rightarrow> []);
                     tip = (if length guesses' = 3 then
                              let mid = (cfg_min c + cfg_max c) div 2;
                                  half = (if secret \<le> mid then ''lower'' else ''upper'')
                              in [Tip half (cfg_min c) (cfg_max c)]
                            else []);
                     r = guess_loop c secret clock attempts_left' guesses' rest
                 in r\<lparr>run_output :=
                        timer @ [AskGuess, Hint mh] @ left_msg @ tip @ run_output r\<rparr>))"

declare guess_loop.simps [simp del]

text \<open>
  \<^verbatim>\<open>play_round\<close> with its trace: an unknown key raises \<^verbatim>\<open>KeyError\<close> at
  \<^verbatim>\<open>DIFFICULTIES[difficulty_key]\<close>.
\<close>

definition run_round ::
  "string \<Rightarrow> string \<Rightarrow> int \<Rightarrow> (nat \<Rightarrow> rat) \<Rightarrow> int list \<Rightarrow> py_error + run" where
  "run_round difficulty_key player_name secret clock pending =
     (case map_of DIFFICULTIES difficulty_key of
        None \<Rightarrow> Inl KeyError
      | Some c \<Rightarrow>
          let lo = cfg_min c; hi = cfg_max c;
              attempts_left = cfg_attempts c;
              time_limit = cfg_time_limit c;
              intro = [Picked lo hi player_name]
                      @ (case attempts_left of
                           Some a \<Rightarrow> if a \<noteq> 0 then [YouHaveAttempts a] else []
                         | None \<Rightarrow> [])
                      @ (case time_limit of
                           Some t \<Rightarrow> if t \<noteq> 0 then [YouHaveSeconds t] else []
                         | None \<Rightarrow> []);
              r = guess_loop c secret clock attempts_left [] pending
          in Inr (r\<lparr>run_output := intro @ run_output r\<rparr>))"

text \<open>What \<^verbatim>\<open>play_round\<close> returns to its caller.\<close>

definition play_round ::
  "string \<Rightarrow> string \<Rightarrow> int \<Rightarrow> (nat \<Rightarrow> rat) \<Rightarrow> int list
     \<Rightarrow> py_error + round_result option" where
  "play_round difficulty_key player_name secret clock pending =
     map_sum id run_result (run_round difficulty_key player_name secret clock pending)"

subsection \<open>Scoring\<close>

text \<open>
  \<^verbatim>\<open>compute_score\<close> looks the base score up first, so an unknown key raises
  \<^verbatim>\<open>KeyError\<close> before the result is inspected.
\<close>

definition compute_score :: "round_result \<Rightarrow> string \<Rightarrow> py_error + int" where
  "compute_score result difficulty_key =
     (case map_of [(''easy'', 50), (''medium'', 120), (''hard'', 300), (''timed'', 200)]
             difficulty_key of
        None \<Rightarrow> Inl KeyError
      | Some base \<Rightarrow>
          if \<not> res_win result then Inr 0
          else
            let attempts = res_attempts result;
                score = max 10 (base + max 0 (50 - attempts * 5))
            in Inr score)"

subsection \<open>Main menu: playing a round\<close>

text \<open>
  Choice 1 of \<^verbatim>\<open>main\<close>: play, score, and store the score when it is positive. The
  value is the score printed (\<open>None\<close> while the round has not ended) and the state of the
  highscore file afterwards.
\<close>

definition main_round ::
  "string \<Rightarrow> string \<Rightarrow> int \<Rightarrow> (nat \<Rightarrow> rat) \<Rightarrow> int list \<Rightarrow> string \<Rightarrow> storage
     \<Rightarrow> py_error + (int option \<times> storage)" where
  "main_round player difficulty secret clock pending now st =
     (case play_round difficulty player secret clock pending of
        Inl err \<Rightarrow> Inl err
      | Inr None \<Rightarrow> Inr (None, st)
      | Inr (Some result) \<Rightarrow>
          (case compute_score result difficulty of
             Inl err \<Rightarrow> Inl err
           | Inr score \<Rightarrow>
               if score > 0 then
                 (case add_highscore player score difficulty now st of
                    Inl err \<Rightarrow> Inl err
                  | Inr st' \<Rightarrow> Inr (Some score, st'))
               else Inr (Some score, st)))"

section \<open>Notions used to state the properties\<close>

subsection \<open>Hints\<close>





subsection \<open>The round\<close>

text \<open>A clock that reports the same elapsed time at every reading.\<close>

definition clock_at :: "rat \<Rightarrow> nat \<Rightarrow> rat" where
  "clock_at e i = e"

text \<open>The two exit tests at the top of an iteration, and what the iteration prints.\<close>

definition time_up :: "cfg \<Rightarrow> rat \<Rightarrow> bool" where
  "time_up c elapsed =
     (case cfg_time_limit c of
        Some t \<Rightarrow> t \<noteq> 0 \<and> rat_of_int t < elapsed
      | None \<Rightarrow> False)"

definition attempts_out :: "int option \<Rightarrow> bool" where
  "attempts_out al = (case al of Some a \<Rightarrow> a \<le> 0 | None \<Rightarrow> False)"

definition timer_msg :: "cfg \<Rightarrow> rat \<Rightarrow> event list" where
  "timer_msg c elapsed =
     (case cfg_time_limit c of
        Some t \<Rightarrow> if t \<noteq> 0 then [Timer \<lfloor>max 0 (rat_of_int t - elapsed)\<rfloor>] else []
      | None \<Rightarrow> [])"

definition loss :: "int \<Rightarrow> int list \<Rightarrow> round_result" where
  "loss secret guesses =
     \<lparr>res_win = False, res_attempts = int (length guesses), res_secret = secret\<rparr>"

definition half_tip :: "cfg \<Rightarrow> int \<Rightarrow> event" where
  "half_tip c secret =
     Tip (if secret \<le> (cfg_min c + cfg_max c) div 2 then ''lower'' else ''upper'')
         (cfg_min c) (cfg_max c)"

definition wrong_guess_msgs ::
  "cfg \<Rightarrow> int \<Rightarrow> int option \<Rightarrow> int list \<Rightarrow> int \<Rightarrow> event list" where
  "wrong_guess_msgs c secret al guesses guess =
     [AskGuess,
      Hint (give_hint secret guess (int (length (guesses @ [guess])))
              (case cfg_attempts c of Some a \<Rightarrow> if a \<noteq> 0 then a else 999 | None \<Rightarrow> 999))]
     @ (case al of Some a \<Rightarrow> [AttemptsLeft (a - 1)] | None \<Rightarrow> [])
     @ (if length guesses = 2 then [half_tip c secret] else [])"

fun is_tip :: "event \<Rightarrow> bool" where
  "is_tip (Tip half lo hi) = True"
| "is_tip e = False"

text \<open>
  For every tip in a trace, the number of guesses that had been requested when it was
  printed, counting from \<open>n\<close>.
\<close>

fun guess_counts_at_tips :: "nat \<Rightarrow> event list \<Rightarrow> nat list" where
  "guess_counts_at_tips n [] = []"
| "guess_counts_at_tips n (AskGuess # es) = guess_counts_at_tips (Suc n) es"
| "guess_counts_at_tips n (Tip half lo hi # es) = n # guess_counts_at_tips n es"
| "guess_counts_at_tips n (e # es) = guess_counts_at_tips n es"

subsection \<open>The highscore store\<close>



text \<open>An entry of a leaderboard: a dictionary whose score is a number.\<close>

definition is_entry :: "json \<Rightarrow> bool" where
  "is_entry e =
     (case subscript e ''score'' of Inr k \<Rightarrow> as_number k \<noteq> None | Inl err \<Rightarrow> False)"


section \<open>Auxiliary facts\<close>

subsection \<open>Hints\<close>









subsection \<open>The loop of a round, case by case\<close>

lemma loop_time_up:
  "time_up c (clock (length guesses)) \<Longrightarrow>
   guess_loop c secret clock al guesses pending =
     \<lparr>run_output = [TimesUp], run_guesses = guesses, run_result = Some (loss secret guesses)\<rparr>"
  by (subst guess_loop.simps)
     (auto simp: time_up_def truthy_def loss_def Let_def split: option.splits)

lemma loop_attempts_out:
  "\<not> time_up c (clock (length guesses)) \<Longrightarrow> attempts_out al \<Longrightarrow>
   guess_loop c secret clock al guesses pending =
     \<lparr>run_output = timer_msg c (clock (length guesses)) @ [NoAttemptsLeft],
      run_guesses = guesses, run_result = Some (loss secret guesses)\<rparr>"
  by (subst guess_loop.simps)
     (auto simp: time_up_def truthy_def loss_def Let_def attempts_out_def timer_msg_def
           split: option.splits)

lemma loop_waiting:
  "\<not> time_up c (clock (length guesses)) \<Longrightarrow> \<not> attempts_out al \<Longrightarrow>
   guess_loop c secret clock al guesses [] =
     \<lparr>run_output = timer_msg c (clock (length guesses)) @ [AskGuess],
      run_guesses = guesses, run_result = None\<rparr>"
  by (subst guess_loop.simps)
     (auto simp: time_up_def truthy_def loss_def Let_def attempts_out_def timer_msg_def
           split: option.splits)

lemma loop_correct:
  "\<not> time_up c (clock (length guesses)) \<Longrightarrow> \<not> attempts_out al \<Longrightarrow>
   guess_loop c secret clock al guesses (secret # rest) =
     \<lparr>run_output = timer_msg c (clock (length guesses)) @ [AskGuess, CorrectMsg],
      run_guesses = guesses @ [secret],
      run_result = Some \<lparr>res_win = True, res_attempts = int (length guesses) + 1,
                         res_secret = secret\<rparr>\<rparr>"
  by (subst guess_loop.simps)
     (auto simp: time_up_def truthy_def loss_def Let_def attempts_out_def timer_msg_def
           split: option.splits)

lemma loop_wrong:
  "\<not> time_up c (clock (length guesses)) \<Longrightarrow> \<not> attempts_out al \<Longrightarrow> guess \<noteq> secret \<Longrightarrow>
   guess_loop c secret clock al guesses (guess # rest) =
     (guess_loop c secret clock (map_option (\<lambda>a. a - 1) al) (guesses @ [guess]) rest)
     \<lparr>run_output := timer_msg c (clock (length guesses))
         @ wrong_guess_msgs c secret al guesses guess
         @ run_output (guess_loop c secret clock (map_option (\<lambda>a. a - 1) al)
                         (guesses @ [guess]) rest)\<rparr>"
  apply (subst guess_loop.simps)
  apply (cases "cfg_time_limit c"; cases al)
  apply (auto simp add: time_up_def truthy_def Let_def attempts_out_def timer_msg_def
           wrong_guess_msgs_def half_tip_def)
  done


lemmas loop_cases = loop_time_up loop_attempts_out loop_waiting loop_correct loop_wrong

lemma loop_guesses:
  "\<exists>k. run_guesses (guess_loop c secret clock al guesses pending) = guesses @ take k pending"
proof (induction pending arbitrary: al guesses)
  case Nil
  show ?case
    by (cases "time_up c (clock (length guesses))"; cases "attempts_out al")
       (simp_all add: loop_cases)
next
  case (Cons g rest)
  show ?case
  proof (cases "time_up c (clock (length guesses)) \<or> attempts_out al")
    case True
    then have "run_guesses (guess_loop c secret clock al guesses (g # rest)) = guesses @ take 0 (g # rest)"
      by (cases "time_up c (clock (length guesses))") (auto simp: loop_cases)
    then show ?thesis by blast
  next
    case False
    show ?thesis
    proof (cases "g = secret")
      case True
      with False have "run_guesses (guess_loop c secret clock al guesses (g # rest)) = guesses @ take 1 (g # rest)"
        by (simp add: loop_cases)
      then show ?thesis by blast
    next
      case wrong: False
      from Cons.IH [of "map_option (\<lambda>a. a - 1) al" "guesses @ [g]"]
      obtain k where
        "run_guesses (guess_loop c secret clock (map_option (\<lambda>a. a - 1) al) (guesses @ [g]) rest)
           = (guesses @ [g]) @ take k rest" by blast
      with False wrong
      have "run_guesses (guess_loop c secret clock al guesses (g # rest)) = guesses @ take (Suc k) (g # rest)"
        by (simp add: loop_cases)
      then show ?thesis by blast
    qed
  qed
qed

lemma loop_result:
  assumes "run_result (guess_loop c secret clock al guesses pending) = Some res"
  shows "res_secret res = secret \<and>
         res_attempts res = int (length (run_guesses (guess_loop c secret clock al guesses pending))) \<and>
         (res_win res \<longleftrightarrow>
            length guesses < length (run_guesses (guess_loop c secret clock al guesses pending)) \<and>
            last (run_guesses (guess_loop c secret clock al guesses pending)) = secret)"
  using assms
proof (induction pending arbitrary: al guesses)
  case Nil
  then show ?case
    by (cases "time_up c (clock (length guesses))"; cases "attempts_out al")
       (auto simp: loop_cases loss_def)
next
  case (Cons g rest)
  show ?case
  proof (cases "time_up c (clock (length guesses)) \<or> attempts_out al")
    case True
    with Cons.prems show ?thesis
      by (cases "time_up c (clock (length guesses))") (auto simp: loop_cases loss_def)
  next
    case False
    show ?thesis
    proof (cases "g = secret")
      case True
      with False Cons.prems show ?thesis
        by (auto simp: loop_cases)
    next
      case wrong: False
      let ?R = "guess_loop c secret clock (map_option (\<lambda>a. a - 1) al) (guesses @ [g]) rest"
      from False wrong Cons.prems have res: "run_result ?R = Some res"
        by (simp add: loop_cases)
      note ih = Cons.IH [OF res]
      obtain k where k: "run_guesses ?R = (guesses @ [g]) @ take k rest"
        using loop_guesses by blast
      have eq: "run_guesses (guess_loop c secret clock al guesses (g # rest)) = run_guesses ?R"
        using False wrong by (simp add: loop_cases)
      show ?thesis
      proof (cases "take k rest = []")
        case True
        with ih k eq wrong show ?thesis by simp
      next
        case False
        with ih k eq show ?thesis by simp
      qed
    qed
  qed
qed

subsection \<open>Tips and time checks along the loop\<close>

lemma tips_timer [simp]: "filter is_tip (timer_msg c e) = []"
  by (simp add: timer_msg_def split: option.splits)

lemma counts_timer [simp]:
  "guess_counts_at_tips n (timer_msg c e @ es) = guess_counts_at_tips n es"
  by (simp add: timer_msg_def split: option.splits)

lemma tips_wrong [simp]:
  "filter is_tip (wrong_guess_msgs c secret al guesses g) =
     (if length guesses = 2 then [half_tip c secret] else [])"
  by (simp add: wrong_guess_msgs_def half_tip_def split: option.splits)

lemma counts_wrong [simp]:
  "guess_counts_at_tips n (wrong_guess_msgs c secret al guesses g @ es) =
     (if length guesses = 2 then [Suc n] else []) @ guess_counts_at_tips (Suc n) es"
  by (simp add: wrong_guess_msgs_def half_tip_def split: option.splits)

lemma loop_tips:
  "filter is_tip (run_output (guess_loop c secret clock al guesses pending)) =
     (if length guesses < 3
         \<and> 3 \<le> length (run_guesses (guess_loop c secret clock al guesses pending))
         \<and> run_guesses (guess_loop c secret clock al guesses pending) ! 2 \<noteq> secret
      then [half_tip c secret] else []) \<and>
   guess_counts_at_tips (length guesses)
       (run_output (guess_loop c secret clock al guesses pending)) =
     (if length guesses < 3
         \<and> 3 \<le> length (run_guesses (guess_loop c secret clock al guesses pending))
         \<and> run_guesses (guess_loop c secret clock al guesses pending) ! 2 \<noteq> secret
      then [3] else [])"
proof (induction pending arbitrary: al guesses)
  case Nil
  show ?case
    by (cases "time_up c (clock (length guesses))"; cases "attempts_out al")
       (simp_all add: loop_cases)
next
  case (Cons g rest)
  show ?case
  proof (cases "time_up c (clock (length guesses)) \<or> attempts_out al")
    case True
    then show ?thesis
      by (cases "time_up c (clock (length guesses))") (auto simp: loop_cases)
  next
    case False
    show ?thesis
    proof (cases "g = secret")
      case True
      with False show ?thesis
        by (auto simp: loop_cases nth_append)
    next
      case wrong: False
      let ?R = "guess_loop c secret clock (map_option (\<lambda>a. a - 1) al) (guesses @ [g]) rest"
      obtain k where k: "run_guesses ?R = (guesses @ [g]) @ take k rest"
        using loop_guesses by blast
      have eq: "guess_loop c secret clock al guesses (g # rest) =
                ?R\<lparr>run_output := timer_msg c (clock (length guesses))
                       @ wrong_guess_msgs c secret al guesses g @ run_output ?R\<rparr>"
        using False wrong by (simp add: loop_cases)
      note ih = Cons.IH [of "map_option (\<lambda>a. a - 1) al" "guesses @ [g]"]
      consider "length guesses < 2" | "length guesses = 2" | "2 < length guesses" by linarith
      then show ?thesis
      proof cases
        case 1
        with ih show ?thesis unfolding eq by simp
      next
        case 2
        with ih k wrong show ?thesis unfolding eq by (simp add: nth_append)
      next
        case 3
        with ih show ?thesis unfolding eq by simp
      qed
    qed
  qed
qed

lemma TimesUp_timer [simp]: "TimesUp \<notin> set (timer_msg c e)"
  by (simp add: timer_msg_def split: option.splits)

lemma TimesUp_wrong [simp]: "TimesUp \<notin> set (wrong_guess_msgs c secret al guesses g)"
  by (simp add: wrong_guess_msgs_def half_tip_def split: option.splits)

lemma loop_time:
  "list_all (\<lambda>i. \<not> time_up c (clock i))
     [length guesses ..< length (run_guesses (guess_loop c secret clock al guesses pending))] \<and>
   (TimesUp \<in> set (run_output (guess_loop c secret clock al guesses pending)) \<longleftrightarrow>
      run_result (guess_loop c secret clock al guesses pending)
        = Some (loss secret (run_guesses (guess_loop c secret clock al guesses pending))) \<and>
      time_up c (clock (length (run_guesses (guess_loop c secret clock al guesses pending)))))"
proof (induction pending arbitrary: al guesses)
  case Nil
  show ?case
    by (cases "time_up c (clock (length guesses))"; cases "attempts_out al")
       (simp_all add: loop_cases)
next
  case (Cons g rest)
  show ?case
  proof (cases "time_up c (clock (length guesses)) \<or> attempts_out al")
    case True
    then show ?thesis
      by (cases "time_up c (clock (length guesses))") (auto simp: loop_cases)
  next
    case False
    show ?thesis
    proof (cases "g = secret")
      case True
      with False show ?thesis
        by (auto simp: loop_cases loss_def)
    next
      case wrong: False
      let ?R = "guess_loop c secret clock (map_option (\<lambda>a. a - 1) al) (guesses @ [g]) rest"
      obtain k where k: "run_guesses ?R = (guesses @ [g]) @ take k rest"
        using loop_guesses by blast
      have eq: "guess_loop c secret clock al guesses (g # rest) =
                ?R\<lparr>run_output := timer_msg c (clock (length guesses))
                       @ wrong_guess_msgs c secret al guesses g @ run_output ?R\<rparr>"
        using False wrong by (simp add: loop_cases)
      note ih = Cons.IH [where al = "map_option (\<lambda>a. a - 1) al" and guesses = "guesses @ [g]"]
      have up: "[length guesses ..< length (run_guesses ?R)] =
                length guesses # [length (guesses @ [g]) ..< length (run_guesses ?R)]"
        unfolding k by (simp add: upt_rec)
      from ih False show ?thesis
        unfolding eq by (simp add: up)
    qed
  qed
qed

subsection \<open>Sorting in descending order\<close>

lemma length_sorted_reverse [simp]: "length (sorted_reverse key xs) = length xs"
  by (simp add: sorted_reverse_def)


lemma set_sorted_reverse [simp]: "set (sorted_reverse key xs) = set xs"
  by (simp add: sorted_reverse_def)








subsection \<open>Adding to a leaderboard\<close>

lemma is_entry_new [simp]: "is_entry (new_entry name score difficulty now)"
  by (simp add: is_entry_def new_entry_def)

lemma score_number_new [simp]: "score_number (new_entry name score difficulty now) = score"
  by (simp add: score_number_def new_entry_def)









section \<open>Properties\<close>

subsection \<open>Scoring\<close>

lemma compute_score_easy:
  "compute_score r ''easy'' =
     Inr (if res_win r then max 10 (50 + max 0 (50 - res_attempts r * 5)) else 0)"
  by (simp add: compute_score_def Let_def)

lemma compute_score_medium:
  "compute_score r ''medium'' =
     Inr (if res_win r then max 10 (120 + max 0 (50 - res_attempts r * 5)) else 0)"
  by (simp add: compute_score_def Let_def)

lemma compute_score_hard:
  "compute_score r ''hard'' =
     Inr (if res_win r then max 10 (300 + max 0 (50 - res_attempts r * 5)) else 0)"
  by (simp add: compute_score_def Let_def)

lemma compute_score_timed:
  "compute_score r ''timed'' =
     Inr (if res_win r then max 10 (200 + max 0 (50 - res_attempts r * 5)) else 0)"
  by (simp add: compute_score_def Let_def)

text \<open>
  C1. For every round result and every difficulty key among easy, medium, hard and timed,
  the score is 0 when the round was not won, and
  \<open>max 10 (base + max 0 (50 - attempts * 5))\<close> when it was, with base 50, 120, 300 and
  200 respectively; the score is never negative.
\<close>

theorem compute_score_formula:
  assumes "k \<in> {''easy'', ''medium'', ''hard'', ''timed''}"
  shows "\<exists>n. compute_score r k = Inr n \<and> 0 \<le> n \<and>
           n = (if res_win r
                then max 10 ((if k = ''easy'' then 50 else if k = ''medium'' then 120
                              else if k = ''hard'' then 300 else 200)
                             + max 0 (50 - res_attempts r * 5))
                else 0)"
proof -
  from assms consider "k = ''easy''" | "k = ''medium''" | "k = ''hard''" | "k = ''timed''"
    by auto
  then show ?thesis
  proof cases
    case 1 then show ?thesis by (simp add: compute_score_easy)
  next
    case 2 then show ?thesis by (simp add: compute_score_medium)
  next
    case 3 then show ?thesis by (simp add: compute_score_hard)
  next
    case 4 then show ?thesis by (simp add: compute_score_timed)
  qed
qed

theorem compute_score_formula_witness:
  "''easy'' \<in> {''easy'', ''medium'', ''hard'', ''timed''} \<and>
   (\<exists>n. compute_score \<lparr>res_win = True, res_attempts = 3, res_secret = 27\<rparr> ''easy'' = Inr n
        \<and> 0 \<le> n \<and> n = 85)"
  using compute_score_formula
          [of "''easy''" "\<lparr>res_win = True, res_attempts = 3, res_secret = 27\<rparr>"]
  by simp

text \<open>
  C10. For a won round and each of the four keys the score is at least the base score of
  the mode, hence at least 50, and it equals \<open>base + max 0 (50 - attempts * 5)\<close>: the
  lower clamp at 10 never applies.
\<close>

theorem compute_score_clamp_idle:
  assumes "k \<in> {''easy'', ''medium'', ''hard'', ''timed''}" and "res_win r"
  shows "\<exists>n. compute_score r k = Inr n \<and>
           n = (if k = ''easy'' then 50 else if k = ''medium'' then 120
                else if k = ''hard'' then 300 else 200)
               + max 0 (50 - res_attempts r * 5) \<and>
           (if k = ''easy'' then 50 else if k = ''medium'' then 120
            else if k = ''hard'' then 300 else 200) \<le> n \<and>
           50 \<le> n"
proof -
  from assms(1) consider "k = ''easy''" | "k = ''medium''" | "k = ''hard''" | "k = ''timed''"
    by auto
  then show ?thesis
  proof cases
    case 1 with assms(2) show ?thesis by (simp add: compute_score_easy)
  next
    case 2 with assms(2) show ?thesis by (simp add: compute_score_medium)
  next
    case 3 with assms(2) show ?thesis by (simp add: compute_score_hard)
  next
    case 4 with assms(2) show ?thesis by (simp add: compute_score_timed)
  qed
qed

theorem compute_score_clamp_idle_witness:
  "''hard'' \<in> {''easy'', ''medium'', ''hard'', ''timed''} \<and>
   res_win \<lparr>res_win = True, res_attempts = 12, res_secret = 640\<rparr> \<and>
   (\<exists>n. compute_score \<lparr>res_win = True, res_attempts = 12, res_secret = 640\<rparr> ''hard'' = Inr n
        \<and> n = 300 \<and> 50 \<le> n)"
  using compute_score_clamp_idle
          [of "''hard''" "\<lparr>res_win = True, res_attempts = 12, res_secret = 640\<rparr>"]
  by simp

subsection \<open>The highscore store\<close>







subsection \<open>Hints\<close>





subsection \<open>The round\<close>

text \<open>
  C3. In a round with a time limit, every iteration of the loop compares the elapsed
  time with the limit before anything else: when the elapsed time is strictly greater,
  the loop ends there as a loss with the guesses recorded so far, and no guess is
  requested; otherwise (also when the two are equal) the timer is printed and, if
  attempts remain, the guess is requested. Hence every guess recorded was preceded by a
  check that passed, and a run prints the time-up message exactly when it ends as a
  loss at a check that failed. With limit 20 and elapsed time 21 at the first check, the
  result is a loss with 0 attempts, the score is 0 and the highscore file is left as it
  was.
\<close>

theorem time_checked_before_guess:
  assumes "cfg_time_limit c = Some t" and "t \<noteq> 0"
  shows "(if rat_of_int t < clock (length guesses)
          then guess_loop c secret clock al guesses pending =
                 \<lparr>run_output = [TimesUp], run_guesses = guesses,
                  run_result = Some \<lparr>res_win = False, res_attempts = int (length guesses),
                                     res_secret = secret\<rparr>\<rparr>
          else take 2 (run_output (guess_loop c secret clock al guesses pending)) =
                 [Timer \<lfloor>max 0 (rat_of_int t - clock (length guesses))\<rfloor>,
                  if (case al of Some a \<Rightarrow> a \<le> 0 | None \<Rightarrow> False)
                  then NoAttemptsLeft else AskGuess]) \<and>
         list_all (\<lambda>i. clock i \<le> rat_of_int t)
           [length guesses ..<
              length (run_guesses (guess_loop c secret clock al guesses pending))] \<and>
         (TimesUp \<in> set (run_output (guess_loop c secret clock al guesses pending)) \<longleftrightarrow>
            run_result (guess_loop c secret clock al guesses pending) =
              Some \<lparr>res_win = False,
                    res_attempts =
                      int (length (run_guesses (guess_loop c secret clock al guesses pending))),
                    res_secret = secret\<rparr> \<and>
            rat_of_int t <
              clock (length (run_guesses (guess_loop c secret clock al guesses pending)))) \<and>
         play_round ''timed'' player secret (clock(0 := 21)) pending =
           Inr (Some \<lparr>res_win = False, res_attempts = 0, res_secret = secret\<rparr>) \<and>
         compute_score \<lparr>res_win = False, res_attempts = 0, res_secret = secret\<rparr> ''timed''
           = Inr 0 \<and>
         main_round player ''timed'' secret (clock(0 := 21)) pending now st
           = Inr (Some 0, st)"
proof (intro conjI)
  let ?R = "guess_loop c secret clock al guesses pending"
  have up: "time_up c e \<longleftrightarrow> rat_of_int t < e" for e
    using assms by (simp add: time_up_def)
  have timer: "timer_msg c e = [Timer \<lfloor>max 0 (rat_of_int t - e)\<rfloor>]" for e
    using assms by (simp add: timer_msg_def)
  show "if rat_of_int t < clock (length guesses)
        then ?R = \<lparr>run_output = [TimesUp], run_guesses = guesses,
                   run_result = Some \<lparr>res_win = False, res_attempts = int (length guesses),
                                      res_secret = secret\<rparr>\<rparr>
        else take 2 (run_output ?R) =
               [Timer \<lfloor>max 0 (rat_of_int t - clock (length guesses))\<rfloor>,
                if (case al of Some a \<Rightarrow> a \<le> 0 | None \<Rightarrow> False)
                then NoAttemptsLeft else AskGuess]"
  proof (cases "rat_of_int t < clock (length guesses)")
    case True
    then show ?thesis
      by (simp add: loop_time_up up loss_def)
  next
    case False
    then have nt: "\<not> time_up c (clock (length guesses))" by (simp add: up)
    have ao: "(case al of Some a \<Rightarrow> a \<le> 0 | None \<Rightarrow> False) = attempts_out al"
      by (simp add: attempts_out_def)
    show ?thesis
    proof (cases "attempts_out al")
      case True
      with nt False show ?thesis
        by (simp add: loop_attempts_out timer ao)
    next
      case no: False
      show ?thesis
      proof (cases pending)
        case Nil
        with nt no False show ?thesis
          by (simp add: loop_waiting timer ao)
      next
        case (Cons g rest)
        with nt no False show ?thesis
          by (cases "g = secret")
             (simp_all add: loop_correct loop_wrong timer ao wrong_guess_msgs_def)
      qed
    qed
  qed
  from loop_time [of c clock guesses secret al pending]
  show "list_all (\<lambda>i. clock i \<le> rat_of_int t) [length guesses ..< length (run_guesses ?R)]"
    by (simp add: up not_less)
  from loop_time [of c clock guesses secret al pending]
  show "TimesUp \<in> set (run_output ?R) \<longleftrightarrow>
          run_result ?R =
            Some \<lparr>res_win = False, res_attempts = int (length (run_guesses ?R)),
                  res_secret = secret\<rparr> \<and>
          rat_of_int t < clock (length (run_guesses ?R))"
    by (simp add: up loss_def)
  let ?timed = "\<lparr>cfg_min = 1, cfg_max = 500, cfg_attempts = None, cfg_time_limit = Some 20\<rparr>"
  have "time_up ?timed ((clock(0 := 21)) (length ([]::int list)))"
    by (simp add: time_up_def)
  then have first: "guess_loop ?timed secret (clock(0 := 21)) None [] pending =
      \<lparr>run_output = [TimesUp], run_guesses = [], run_result = Some (loss secret [])\<rparr>"
    by (rule loop_time_up [where c = "?timed" and clock = "clock(0 := 21)" and guesses = "[]"])
  show play: "play_round ''timed'' player secret (clock(0 := 21)) pending =
           Inr (Some \<lparr>res_win = False, res_attempts = 0, res_secret = secret\<rparr>)"
    by (simp add: play_round_def run_round_def DIFFICULTIES_def Let_def first loss_def)
  show score: "compute_score \<lparr>res_win = False, res_attempts = 0, res_secret = secret\<rparr> ''timed''
           = Inr 0"
    by (simp add: compute_score_def)
  show "main_round player ''timed'' secret (clock(0 := 21)) pending now st = Inr (Some 0, st)"
    by (simp add: main_round_def play score)
qed

theorem time_checked_before_guess_witness:
  "cfg_time_limit \<lparr>cfg_min = 1, cfg_max = 500, cfg_attempts = None, cfg_time_limit = Some 20\<rparr>
     = Some 20 \<and> (20::int) \<noteq> 0 \<and>
   guess_loop \<lparr>cfg_min = 1, cfg_max = 500, cfg_attempts = None, cfg_time_limit = Some 20\<rparr>
       27 (clock_at 21) None [] [5, 27] =
     \<lparr>run_output = [TimesUp], run_guesses = [],
      run_result = Some \<lparr>res_win = False, res_attempts = 0, res_secret = 27\<rparr>\<rparr> \<and>
   take 2 (run_output
       (guess_loop \<lparr>cfg_min = 1, cfg_max = 500, cfg_attempts = None, cfg_time_limit = Some 20\<rparr>
          27 (clock_at 20) None [] [5, 27])) = [Timer 0, AskGuess]"
proof -
  let ?c = "\<lparr>cfg_min = 1, cfg_max = 500, cfg_attempts = None, cfg_time_limit = Some 20\<rparr>"
  have h1: "cfg_time_limit ?c = Some 20" by simp
  have h2: "(20::int) \<noteq> 0" by simp
  from time_checked_before_guess [OF h1 h2, of "clock_at 21" "[]" 27 None "[5, 27]"]
       time_checked_before_guess [OF h1 h2, of "clock_at 20" "[]" 27 None "[5, 27]"]
  show ?thesis
    by (simp add: clock_at_def)
qed

text \<open>
  C6, as stated, with the guess history as a field of the result: it fails. Two rounds
  with the same secret and different guesses return the same dictionary, so the guesses
  cannot be read off the result; the dictionary has the keys win, attempts and secret
  only.
\<close>

theorem round_result_guesses_counterexample:
  "play_round ''easy'' ''Ann'' 27 (clock_at 0) [10, 40, 27] =
     Inr (Some \<lparr>res_win = True, res_attempts = 3, res_secret = 27\<rparr>) \<and>
   play_round ''easy'' ''Ann'' 27 (clock_at 0) [11, 40, 27] =
     Inr (Some \<lparr>res_win = True, res_attempts = 3, res_secret = 27\<rparr>) \<and>
   map_sum id run_guesses (run_round ''easy'' ''Ann'' 27 (clock_at 0) [10, 40, 27]) =
     Inr [10, 40, 27] \<and>
   map_sum id run_guesses (run_round ''easy'' ''Ann'' 27 (clock_at 0) [11, 40, 27]) =
     Inr [11, 40, 27]"
  by code_simp

text \<open>
  C6, amended. Whenever a round ends (won, out of attempts or out of time), the result
  returned holds exactly the won flag, the number of guesses recorded and the secret that
  was drawn; the round is won exactly when the last guess recorded is the secret; the
  guesses recorded are an initial part of the guesses supplied.
\<close>

theorem round_result_contents:
  assumes "run_round k player secret clock pending = Inr R" and "run_result R = Some res"
  shows "play_round k player secret clock pending = Inr (Some res) \<and>
         res = \<lparr>res_win = (run_guesses R \<noteq> [] \<and> last (run_guesses R) = secret),
                res_attempts = int (length (run_guesses R)),
                res_secret = secret\<rparr> \<and>
         prefix (run_guesses R) pending"
proof -
  from assms(1) obtain c where c: "map_of DIFFICULTIES k = Some c"
    by (auto simp: run_round_def split: option.splits)
  let ?L = "guess_loop c secret clock (cfg_attempts c) [] pending"
  from assms(1) c have g: "run_guesses R = run_guesses ?L" and r: "run_result R = run_result ?L"
    by (auto simp: run_round_def Let_def)
  from assms(2) r have "run_result ?L = Some res" by simp
  from loop_result [OF this]
  have "res_secret res = secret" "res_attempts res = int (length (run_guesses R))"
       "res_win res \<longleftrightarrow> run_guesses R \<noteq> [] \<and> last (run_guesses R) = secret"
    by (simp_all add: g)
  then have "res = \<lparr>res_win = (run_guesses R \<noteq> [] \<and> last (run_guesses R) = secret),
                res_attempts = int (length (run_guesses R)),
                res_secret = secret\<rparr>"
    by simp
  moreover from loop_guesses [of c secret clock "cfg_attempts c" "[]" pending]
  have "prefix (run_guesses R) pending"
    by (auto simp: g take_is_prefix)
  moreover have "play_round k player secret clock pending = Inr (Some res)"
    using assms by (simp add: play_round_def)
  ultimately show ?thesis by blast
qed

theorem round_result_contents_witness:
  "run_round ''timed'' ''Ann'' 27 ((clock_at 5)(2 := 25)) [100, 300, 27] =
     Inr \<lparr>run_output =
            [Picked 1 500 ''Ann'', YouHaveSeconds 20,
             Timer 15, AskGuess, Hint ''Not that close. Try lower.'',
             Timer 15, AskGuess, Hint ''Not that close. Try lower.'',
             TimesUp],
          run_guesses = [100, 300],
          run_result = Some \<lparr>res_win = False, res_attempts = 2, res_secret = 27\<rparr>\<rparr> \<and>
   play_round ''timed'' ''Ann'' 27 ((clock_at 5)(2 := 25)) [100, 300, 27] =
     Inr (Some \<lparr>res_win = False, res_attempts = 2, res_secret = 27\<rparr>) \<and>
   prefix [100, 300] [100, 300, 27::int]"
proof -
  have run: "run_round ''timed'' ''Ann'' 27 ((clock_at 5)(2 := 25)) [100, 300, 27] =
     Inr \<lparr>run_output =
            [Picked 1 500 ''Ann'', YouHaveSeconds 20,
             Timer 15, AskGuess, Hint ''Not that close. Try lower.'',
             Timer 15, AskGuess, Hint ''Not that close. Try lower.'',
             TimesUp],
          run_guesses = [100, 300],
          run_result = Some \<lparr>res_win = False, res_attempts = 2, res_secret = 27\<rparr>\<rparr>"
    by code_simp
  from round_result_contents [OF run] run show ?thesis
    by simp
qed

text \<open>
  C7. In every round of a known mode the tip about the half of the range is printed at
  most once. It is printed exactly when a third guess is recorded and is not the secret,
  it is printed when exactly three guesses have been requested, and it says ``lower''
  when the secret is at most \<open>(min + max) div 2\<close> of the range of the mode and ``upper''
  otherwise.
\<close>

theorem half_range_tip_once:
  assumes "map_of DIFFICULTIES k = Some c"
  shows "\<exists>R. run_round k player secret clock pending = Inr R \<and>
           filter is_tip (run_output R) =
             (if 3 \<le> length (run_guesses R) \<and> run_guesses R ! 2 \<noteq> secret
              then [Tip (if secret \<le> (cfg_min c + cfg_max c) div 2
                         then ''lower'' else ''upper'')
                        (cfg_min c) (cfg_max c)]
              else []) \<and>
           guess_counts_at_tips 0 (run_output R) =
             (if 3 \<le> length (run_guesses R) \<and> run_guesses R ! 2 \<noteq> secret
              then [3] else []) \<and>
           length (filter is_tip (run_output R)) \<le> 1"
proof -
  let ?L = "guess_loop c secret clock (cfg_attempts c) [] pending"
  let ?intro = "[Picked (cfg_min c) (cfg_max c) player]
                @ (case cfg_attempts c of
                     Some a \<Rightarrow> if a \<noteq> 0 then [YouHaveAttempts a] else []
                   | None \<Rightarrow> [])
                @ (case cfg_time_limit c of
                     Some t \<Rightarrow> if t \<noteq> 0 then [YouHaveSeconds t] else []
                   | None \<Rightarrow> [])"
  let ?R = "?L\<lparr>run_output := ?intro @ run_output ?L\<rparr>"
  have run: "run_round k player secret clock pending = Inr ?R"
    using assms by (simp add: run_round_def Let_def)
  have tips_intro: "filter is_tip ?intro = []"
    by (simp split: option.splits)
  have counts_intro: "guess_counts_at_tips 0 (?intro @ es) = guess_counts_at_tips 0 es" for es
    by (simp split: option.splits)
  from loop_tips [of c secret clock "cfg_attempts c" "[]" pending]
  have tips: "filter is_tip (run_output ?L) =
                (if 3 \<le> length (run_guesses ?L) \<and> run_guesses ?L ! 2 \<noteq> secret
                 then [half_tip c secret] else [])"
    and counts: "guess_counts_at_tips 0 (run_output ?L) =
                (if 3 \<le> length (run_guesses ?L) \<and> run_guesses ?L ! 2 \<noteq> secret
                 then [3] else [])"
    by simp_all
  have "filter is_tip (run_output ?R) =
             (if 3 \<le> length (run_guesses ?R) \<and> run_guesses ?R ! 2 \<noteq> secret
              then [Tip (if secret \<le> (cfg_min c + cfg_max c) div 2
                         then ''lower'' else ''upper'')
                        (cfg_min c) (cfg_max c)]
              else [])"
    using tips tips_intro by (simp add: half_tip_def)
  moreover have "guess_counts_at_tips 0 (run_output ?R) =
             (if 3 \<le> length (run_guesses ?R) \<and> run_guesses ?R ! 2 \<noteq> secret
              then [3] else [])"
    using counts counts_intro by simp
  moreover have "length (filter is_tip (run_output ?R)) \<le> 1"
    using tips tips_intro by simp
  ultimately show ?thesis using run by blast
qed

theorem half_range_tip_once_witness:
  "map_of DIFFICULTIES ''hard'' =
     Some \<lparr>cfg_min = 1, cfg_max = 1000, cfg_attempts = Some 10, cfg_time_limit = None\<rparr> \<and>
   (\<exists>R. run_round ''hard'' ''Ann'' 640 (clock_at 0) [500, 750, 600, 640] = Inr R \<and>
        run_guesses R = [500, 750, 600, 640] \<and>
        filter is_tip (run_output R) = [Tip ''upper'' 1 1000] \<and>
        guess_counts_at_tips 0 (run_output R) = [3])"
proof -
  have h: "map_of DIFFICULTIES ''hard'' =
     Some \<lparr>cfg_min = 1, cfg_max = 1000, cfg_attempts = Some 10, cfg_time_limit = None\<rparr>"
    by (simp add: DIFFICULTIES_def)
  have g: "map_sum id run_guesses (run_round ''hard'' ''Ann'' 640 (clock_at 0) [500, 750, 600, 640])
             = Inr [500, 750, 600, 640]"
    by code_simp
  from half_range_tip_once [OF h, of "''Ann''" 640 "clock_at 0" "[500, 750, 600, 640]"]
  obtain R where R: "run_round ''hard'' ''Ann'' 640 (clock_at 0) [500, 750, 600, 640] = Inr R"
    and tips: "filter is_tip (run_output R) =
             (if 3 \<le> length (run_guesses R) \<and> run_guesses R ! 2 \<noteq> 640
              then [Tip (if (640::int) \<le> (1 + 1000) div 2 then ''lower'' else ''upper'') 1 1000]
              else [])"
    and counts: "guess_counts_at_tips 0 (run_output R) =
             (if 3 \<le> length (run_guesses R) \<and> run_guesses R ! 2 \<noteq> 640 then [3] else [])"
    by auto
  from g R have gs: "run_guesses R = [500, 750, 600, 640]" by simp
  from tips counts show ?thesis
    unfolding gs using h R gs by simp
qed

end
